theory Spec2Isabelle
  imports Main "HOL-Library.Word"
begin

section \<open>The RR10 reader driver (rr10.py)\<close>

text \<open>
  The module has two classes: \<open>Message\<close>, a \<open>bytearray\<close> subclass holding one frame
  (length, command, parameters, two checksum bytes), and \<open>RR10\<close>, which runs the two
  handshakes over a serial object. Python integers are \<open>int\<close>, bytes are \<open>8 word\<close>,
  every \<open>raise\<close> is a value of \<open>error\<close>, and a method that mutates \<open>self\<close> returns the
  object it leaves behind next to its result, also when it raises.
\<close>

subsection \<open>Errors\<close>

text \<open>
  \<open>Message\<close> raises plain \<open>Exception\<close> objects that differ in their message text; one
  constructor per format string, its arguments the formatted values:
  \<^item> \<open>MessageTooLong\<close>: \<^verbatim>\<open>'Error: Message too long'\<close>
  \<^item> \<open>IncorrectLength n\<close>: \<^verbatim>\<open>'Error: Incorrect message length ({:#x}).\n'.format(len(self))\<close>
  \<^item> \<open>IncorrectChecksum c\<close>: \<^verbatim>\<open>'Error: Incorrect message checksum (0x{}).\n'.format(checksum.hex())\<close>
  \<^item> \<open>UnknownConstructor\<close>: \<^verbatim>\<open>'Unknown constructor...'\<close>
  \<^item> \<open>NotABytearray\<close>: \<^verbatim>\<open>"Parameters must be a bytearray"\<close>
  \<^item> \<open>TooManyParameters\<close>: \<^verbatim>\<open>"Too many parameters. Maximum {}".format(self.MAX_PARAMETERS)\<close>
  \<^item> \<open>UnknownCommand c\<close>: \<^verbatim>\<open>'Unknow command {}'.format(command)\<close>

  The others are the exceptions Python's built-ins raise: \<open>IndexError\<close> (index out of
  range), \<open>ValueError\<close> (a byte outside \<open>range(256)\<close>, \<open>bytearray\<close> of a negative count,
  \<open>int('', 16)\<close>), \<open>OverflowError\<close> (\<open>int.to_bytes\<close>), \<open>TypeError\<close> (a format
  specification the value does not support), \<open>AttributeError\<close> (a missing attribute).
\<close>

type_synonym byte = "8 word"

datatype error =
    MessageTooLong
  | IncorrectLength nat
  | IncorrectChecksum "byte list"
  | UnknownConstructor
  | NotABytearray
  | TooManyParameters
  | UnknownCommand int
  | IndexError
  | ValueError
  | OverflowError
  | TypeError
  | AttributeError

subsection \<open>Python's bytearray operations\<close>

text \<open>
  A slice bound: \<open>None\<close> is the omitted bound (given as its default \<open>d\<close>), a negative
  bound counts from the end, and every bound is clamped to \<open>0..len\<close>.
\<close>

definition slice_bound :: "nat \<Rightarrow> nat \<Rightarrow> int option \<Rightarrow> nat" where
  "slice_bound n d b =
     (case b of
        None \<Rightarrow> d
      | Some i \<Rightarrow> if i < 0 then nat (max 0 (int n + i)) else min n (nat i))"

definition getslice :: "'a list \<Rightarrow> int option \<Rightarrow> int option \<Rightarrow> 'a list" where
  "getslice xs i j =
     (let n = length xs; a = slice_bound n 0 i; b = slice_bound n n j
      in take (b - a) (drop a xs))"

text \<open>\<open>xs[i:j] = v\<close>: a stop before the start is moved to the start (an insertion).\<close>

definition setslice :: "'a list \<Rightarrow> int option \<Rightarrow> int option \<Rightarrow> 'a list \<Rightarrow> 'a list" where
  "setslice xs i j v =
     (let n = length xs; a = slice_bound n 0 i; b = max a (slice_bound n n j)
      in take a xs @ v @ drop b xs)"

definition getitem :: "byte list \<Rightarrow> int \<Rightarrow> error + int" where
  "getitem xs i =
     (let n = int (length xs); j = (if i < 0 then n + i else i)
      in if j < 0 \<or> n \<le> j then Inl IndexError else Inr (uint (xs ! nat j)))"

text \<open>
  \<open>xs[i] = v\<close> raises IndexError for an index out of range and ValueError for a value
  outside \<open>range(256)\<close>. Which of the two is tested first has changed between CPython
  versions; no call below can fail both tests at once.
\<close>

definition setitem :: "byte list \<Rightarrow> int \<Rightarrow> int \<Rightarrow> error + byte list" where
  "setitem xs i v =
     (let n = int (length xs); j = (if i < 0 then n + i else i)
      in if j < 0 \<or> n \<le> j then Inl IndexError
         else if v < 0 \<or> 255 < v then Inl ValueError
         else Inr (xs[nat j := word_of_int v]))"

text \<open>\<open>bytearray(n)\<close> for an integer: \<open>n\<close> zero bytes, ValueError for a negative count.\<close>

definition bytearray_count :: "int \<Rightarrow> error + byte list" where
  "bytearray_count n = (if n < 0 then Inl ValueError else Inr (replicate (nat n) 0))"

text \<open>\<open>bytearray(t)\<close> for a tuple of integers: ValueError unless each is in \<open>range(256)\<close>.\<close>

definition bytearray_ints :: "int list \<Rightarrow> error + byte list" where
  "bytearray_ints t =
     (if list_all (\<lambda>p. 0 \<le> p \<and> p < 256) t then Inr (map word_of_int t) else Inl ValueError)"

text \<open>\<open>s.to_bytes(2, 'little')\<close>: OverflowError unless \<open>0 \<le> s < 65536\<close>.\<close>

definition to_bytes_2_little :: "int \<Rightarrow> error + byte list" where
  "to_bytes_2_little s =
     (if s < 0 \<or> 65536 \<le> s then Inl OverflowError
      else Inr [word_of_int (s mod 256), word_of_int (s div 256)])"

text \<open>\<open>sum(xs)\<close> of a bytearray: the sum of its bytes as a Python integer.\<close>

definition sum_bytes :: "byte list \<Rightarrow> int" where
  "sum_bytes xs = sum_list (map uint xs)"

text \<open>
  \<open>int(b.hex(), 16)\<close>: the bytes read as one big-endian number; \<open>int('', 16)\<close> raises
  ValueError.
\<close>

definition int_of_hex :: "byte list \<Rightarrow> error + int" where
  "int_of_hex b =
     (if b = [] then Inl ValueError else Inr (foldl (\<lambda>acc x. acc * 256 + uint x) 0 b))"

subsection \<open>Message: constants and the command table\<close>

definition INDEX_LENGTH :: int where "INDEX_LENGTH = 0"
definition INDEX_COMMAND :: int where "INDEX_COMMAND = 1"
definition INDEX_PARAMETERS :: int where "INDEX_PARAMETERS = 2"
definition INDEX_CHECKSUM :: int where "INDEX_CHECKSUM = - 2"

definition MIN_LENGTH :: nat where "MIN_LENGTH = 4"
definition MAX_LENGTH :: nat where "MAX_LENGTH = 255"
definition MAX_PARAMETERS :: nat where "MAX_PARAMETERS = 251"

definition COMMAND_CONNECTION :: int where "COMMAND_CONNECTION = 0x01"
definition COMMAND_GET_VERSION :: int where "COMMAND_GET_VERSION = 0x03"

text \<open>
  \<open>get_commands\<close>: the class attributes whose name starts with \<open>COMMAND_\<close>, as the
  dictionary from name to value that the class caches at the first call.
\<close>

definition get_commands :: "(string \<times> int) list" where
  "get_commands =
     [(''COMMAND_CONNECTION'', COMMAND_CONNECTION),
      (''COMMAND_SELECT_RF'', 0x02),
      (''COMMAND_GET_VERSION'', COMMAND_GET_VERSION),
      (''COMMAND_ISO15693_TAG_INVENTORY'', 0x06),
      (''COMMAND_ISO15693_TAG_ACCESS'', 0x07),
      (''COMMAND_ISO14443A_TAS_ACCESS'', 0x08),
      (''COMMAND_ISO14443A_TAG_INVENTORY'', 0x09),
      (''COMMAND_MIFARE_ULTRALIGHT_TAG_ACCESS'', 0x08),
      (''COMMAND_TOPAZ_TAG_INVENTORY'', 0x0F),
      (''COMMAND_TOPAZ_TAG_ACCESS'', 0x0F),
      (''COMMAND_ST_TAG_INVENTORY'', 0x0A),
      (''COMMAND_ST_TAG_ACCESS'', 0x0B),
      (''COMMAND_ISO14443B_TAG_INVENTORY'', 0x0C),
      (''COMMAND_ISO14443B_TAG_ACCESS'', 0x0D),
      (''COMMAND_FELICA_TAG_INVENTORY'', 0x0E),
      (''COMMAND_DEVICE_SET_TARGET'', 0x20),
      (''COMMAND_DEVICE_SET_INITIATOR'', 0x21)]"

text \<open>\<open>get_commands().values()\<close>\<close>

definition command_values :: "int list" where
  "command_values = map snd get_commands"

subsection \<open>Message: the object\<close>

text \<open>
  A \<open>Message\<close> is its bytes (\<open>buf\<close>, the bytearray itself) and the attribute
  \<open>_parameters\<close> that the \<open>parameters\<close> property caches: \<open>None\<close> while the attribute is
  not set, otherwise the bytes of the cached \<open>ParametersArray\<close>.
\<close>

record message =
  buf :: "byte list"
  parameters_attr :: "byte list option"

text \<open>
  What a caller can assign to \<open>parameters\<close>: a plain bytearray, a \<open>ParametersArray\<close>
  (the subclass of bytearray the property hands out), the message the setter is called on
  (\<open>m.parameters = m\<close>: a \<open>Message\<close> is a bytearray, and this one shares its buffer
  with \<open>self\<close>), or an object that is not a bytearray. Another message is a plain
  bytearray here.
\<close>

datatype pyvalue =
    Bytearray "byte list"
  | ParametersArray "byte list"
  | Itself
  | NotBytearray

text \<open>\<open>isinstance(value, bytearray)\<close> and \<open>isinstance(value, ParametersArray)\<close>.\<close>

fun is_bytearray :: "pyvalue \<Rightarrow> bool" where
  "is_bytearray NotBytearray = False"
| "is_bytearray v = True"

fun is_ParametersArray :: "pyvalue \<Rightarrow> bool" where
  "is_ParametersArray (ParametersArray b) = True"
| "is_ParametersArray v = False"

text \<open>
  The bytes of the value at the moment they are read, \<open>self\<close> being the message as it is
  then: the bytes of \<open>Itself\<close> are those of the buffer, and change with it.
\<close>

fun value_bytes :: "message \<Rightarrow> pyvalue \<Rightarrow> byte list" where
  "value_bytes self (Bytearray b) = b"
| "value_bytes self (ParametersArray b) = b"
| "value_bytes self Itself = buf self"
| "value_bytes self NotBytearray = []"

text \<open>
  For stating facts: the bytes of a value that is a bytearray of its own, apart from the
  message.
\<close>

fun other_bytearray :: "pyvalue \<Rightarrow> byte list option" where
  "other_bytearray (Bytearray b) = Some b"
| "other_bytearray (ParametersArray b) = Some b"
| "other_bytearray v = None"

text \<open>The first argument of the constructor: bytes or bytearray, an integer, or neither.\<close>

datatype command_or_sequence =
    Sequence "byte list"
  | Command int
  | Neither

text \<open>Property \<open>checksum\<close>: \<open>self[INDEX_CHECKSUM:]\<close>.\<close>

definition checksum :: "message \<Rightarrow> byte list" where
  "checksum self = getslice (buf self) (Some INDEX_CHECKSUM) None"

text \<open>\<open>get_checksum\<close>: \<open>sum(self[:INDEX_CHECKSUM]).to_bytes(2, 'little')\<close>.\<close>

definition get_checksum :: "message \<Rightarrow> error + byte list" where
  "get_checksum self =
     to_bytes_2_little (sum_bytes (getslice (buf self) None (Some INDEX_CHECKSUM)))"

text \<open>\<open>_update_checksum\<close>: \<open>self[INDEX_CHECKSUM:] = self.get_checksum()\<close>.\<close>

definition update_checksum :: "message \<Rightarrow> (error + unit) \<times> message" where
  "update_checksum self =
     (case get_checksum self of
        Inl e \<Rightarrow> (Inl e, self)
      | Inr c \<Rightarrow> (Inr (), self\<lparr>buf := setslice (buf self) (Some INDEX_CHECKSUM) None c\<rparr>))"

text \<open>Property \<open>length\<close>: \<open>self[INDEX_LENGTH]\<close>.\<close>

definition msg_length :: "message \<Rightarrow> error + int" where
  "msg_length self = getitem (buf self) INDEX_LENGTH"

text \<open>\<open>_update_length\<close>: \<open>self[INDEX_LENGTH] = len(self)\<close>, then \<open>_update_checksum\<close>.\<close>

definition update_length :: "message \<Rightarrow> (error + unit) \<times> message" where
  "update_length self =
     (case setitem (buf self) INDEX_LENGTH (int (length (buf self))) of
        Inl e \<Rightarrow> (Inl e, self)
      | Inr b \<Rightarrow> update_checksum (self\<lparr>buf := b\<rparr>))"

text \<open>
  Property \<open>parameters\<close> (getter): the cached view when the attribute is set and the
  view is not empty; otherwise a new view of \<open>self[INDEX_PARAMETERS:INDEX_CHECKSUM]\<close>,
  which is cached. The result is the bytes of the view returned.
\<close>

definition parameters :: "message \<Rightarrow> byte list \<times> message" where
  "parameters self =
     (let fresh = getslice (buf self) (Some INDEX_PARAMETERS) (Some INDEX_CHECKSUM)
      in case parameters_attr self of
           None \<Rightarrow> (fresh, self\<lparr>parameters_attr := Some fresh\<rparr>)
         | Some p \<Rightarrow> if p = [] then (fresh, self\<lparr>parameters_attr := Some fresh\<rparr>)
                     else (p, self))"

text \<open>
  Property \<open>parameters\<close> (setter). The bytearray that extends the buffer is built before
  \<open>+=\<close> runs, so a negative count raises with the buffer untouched. The value is read
  three times: for the two tests on its length, for the slice assignment (which copies
  its right-hand side first when that is the bytearray assigned to), and for the new
  \<open>ParametersArray\<close>. A value that is a \<open>ParametersArray\<close> leaves the attribute
  \<open>_parameters\<close> as it is.
\<close>

definition set_parameters :: "message \<Rightarrow> pyvalue \<Rightarrow> (error + unit) \<times> message" where
  "set_parameters self val =
     (if \<not> is_bytearray val then (Inl NotABytearray, self)
      else if length (value_bytes self val) > MAX_PARAMETERS then (Inl TooManyParameters, self)
      else
        (case (if length (value_bytes self val) + MIN_LENGTH \<noteq> length (buf self)
               then (case bytearray_count
                            (int (length (value_bytes self val) + MIN_LENGTH)
                             - int (length (buf self))) of
                       Inl e \<Rightarrow> Inl e
                     | Inr z \<Rightarrow> Inr (self\<lparr>buf := buf self @ z\<rparr>))
               else Inr self) of
           Inl e \<Rightarrow> (Inl e, self)
         | Inr s1 \<Rightarrow>
            (let s2 = s1\<lparr>buf := setslice (buf s1) (Some INDEX_PARAMETERS)
                                   (Some INDEX_CHECKSUM) (value_bytes s1 val)\<rparr>
             in case update_length s2 of
                  (Inl e, s3) \<Rightarrow> (Inl e, s3)
                | (Inr u, s3) \<Rightarrow>
                    (Inr (),
                     if is_ParametersArray val then s3
                     else s3\<lparr>parameters_attr := Some (value_bytes s3 val)\<rparr>))))"

text \<open>Property \<open>command\<close> (getter): \<open>self[INDEX_COMMAND]\<close>.\<close>

definition command :: "message \<Rightarrow> error + int" where
  "command self = getitem (buf self) INDEX_COMMAND"

text \<open>Property \<open>command\<close> (setter).\<close>

definition set_command :: "message \<Rightarrow> int \<Rightarrow> (error + unit) \<times> message" where
  "set_command self c =
     (if c \<notin> set command_values then (Inl (UnknownCommand c), self)
      else case setitem (buf self) INDEX_COMMAND c of
             Inl e \<Rightarrow> (Inl e, self)
           | Inr b \<Rightarrow> update_checksum (self\<lparr>buf := b\<rparr>))"

text \<open>
  \<open>Message.__init__(command_or_sequence, *parameters)\<close>. A constructor that raises
  leaves no object, so the result is the error or the new message. The bytes branch
  ignores \<open>parameters\<close>; the integer branch starts from \<open>MIN_LENGTH + len(parameters)\<close>
  zero bytes.
\<close>

fun Message_init :: "command_or_sequence \<Rightarrow> int list \<Rightarrow> error + message" where
  "Message_init (Sequence raw) params =
     (let self = \<lparr>buf = raw, parameters_attr = None\<rparr>; len = length (buf self)
      in if len > MAX_LENGTH then Inl MessageTooLong
         else (case msg_length self of
                 Inl e \<Rightarrow> Inl e
               | Inr l \<Rightarrow>
                  (if int len \<noteq> l then Inl (IncorrectLength (length (buf self)))
                   else (case get_checksum self of
                           Inl e \<Rightarrow> Inl e
                         | Inr c \<Rightarrow>
                            (if c \<noteq> checksum self then Inl (IncorrectChecksum c)
                             else Inr self)))))"
| "Message_init (Command c) params =
     (case bytearray_count (int (MIN_LENGTH + length params)) of
        Inl e \<Rightarrow> Inl e
      | Inr z \<Rightarrow>
         (case set_command \<lparr>buf = z, parameters_attr = None\<rparr> c of
            (Inl e, s1) \<Rightarrow> Inl e
          | (Inr u, s1) \<Rightarrow>
             (case bytearray_ints params of
                Inl e \<Rightarrow> Inl e
              | Inr v \<Rightarrow>
                 (case set_parameters s1 (Bytearray v) of
                    (Inl e, s2) \<Rightarrow> Inl e
                  | (Inr u', s2) \<Rightarrow> Inr s2))))"
| "Message_init Neither params = Inl UnknownConstructor"

text \<open>Class methods \<open>version\<close> and \<open>test\<close>.\<close>

definition version :: "error + message" where
  "version = Message_init (Command COMMAND_GET_VERSION) []"

definition test :: "error + message" where
  "test = Message_init (Command COMMAND_CONNECTION) [0x05, 0x0A]"

subsection \<open>RR10: the handshakes over the serial object\<close>

text \<open>
  The serial object is not part of the module (\<open>import serial\<close> is commented out): it
  is a parameter, a state of any type \<open>'s\<close> with the two methods the driver calls.
  \<open>ser_read n\<close> is \<open>serial.read(n)\<close> and returns the bytes read; \<open>ser_write b\<close> is
  \<open>serial.write(b)\<close> and returns the count it reports.
\<close>

record 's serial_ops =
  ser_read :: "nat \<Rightarrow> 's \<Rightarrow> byte list \<times> 's"
  ser_write :: "byte list \<Rightarrow> 's \<Rightarrow> int \<times> 's"

text \<open>
  An \<open>RR10\<close> object is its attribute \<open>serial\<close>. The model adds \<open>calls\<close>, the list of the
  calls made on the serial object so far, oldest first, so that "no write occurs" can be
  stated; no method reads it.
\<close>

datatype event =
    Read nat "byte list"
  | Write "byte list" int

record 's rr10 =
  serial :: 's
  calls :: "event list"

definition serial_read :: "'s serial_ops \<Rightarrow> nat \<Rightarrow> 's rr10 \<Rightarrow> byte list \<times> 's rr10" where
  "serial_read ops n self =
     (case ser_read ops n (serial self) of
        (r, s') \<Rightarrow> (r, self\<lparr>serial := s', calls := calls self @ [Read n r]\<rparr>))"

definition serial_write :: "'s serial_ops \<Rightarrow> byte list \<Rightarrow> 's rr10 \<Rightarrow> int \<times> 's rr10" where
  "serial_write ops b self =
     (case ser_write ops b (serial self) of
        (k, s') \<Rightarrow> (k, self\<lparr>serial := s', calls := calls self @ [Write b k]\<rparr>))"

text \<open>The bytes written so far, one entry per call of \<open>write\<close>.\<close>

fun writes :: "event list \<Rightarrow> byte list list" where
  "writes [] = []"
| "writes (Read n r # es) = writes es"
| "writes (Write b k # es) = b # writes es"

text \<open>
  \<^verbatim>\<open>'Received: {:#x} instead of 0xAA'.format(s)\<close> with \<open>s\<close> the \<open>bytes\<close> object that
  \<open>read\<close> returned: \<open>bytes\<close> has no \<open>__format__\<close> of its own, and \<open>object.__format__\<close>
  raises TypeError for a format specification that is not empty, whatever the bytes are.
\<close>

definition format_hash_x :: "byte list \<Rightarrow> error + string" where
  "format_hash_x s = Inl TypeError"

text \<open>\<open>prepare_to_send\<close>: write \<open>0x55\<close>, read one byte, compare it with \<open>0xAA\<close>.\<close>

definition prepare_to_send :: "'s serial_ops \<Rightarrow> 's rr10 \<Rightarrow> (error + bool) \<times> 's rr10" where
  "prepare_to_send ops self =
     (case serial_write ops [0x55] self of
        (k, self1) \<Rightarrow>
          (case serial_read ops 1 self1 of
             (s, self2) \<Rightarrow>
               if s \<noteq> [0xAA]
               then (case format_hash_x s of
                       Inl e \<Rightarrow> (Inl e, self2)
                     | Inr text \<Rightarrow> (Inr False, self2))
               else (Inr True, self2)))"

text \<open>\<open>send(message)\<close>: the count \<open>write\<close> reports, or 0 when the handshake returns False.\<close>

definition send :: "'s serial_ops \<Rightarrow> 's rr10 \<Rightarrow> message \<Rightarrow> (error + int) \<times> 's rr10" where
  "send ops self msg =
     (case prepare_to_send ops self of
        (Inl e, self1) \<Rightarrow> (Inl e, self1)
      | (Inr ok, self1) \<Rightarrow>
          if ok then (case serial_write ops (buf msg) self1 of (k, self2) \<Rightarrow> (Inr k, self2))
          else (Inr 0, self1))"

text \<open>\<open>ready_to_receive\<close>: read one byte, compare it with \<open>0xA5\<close>, write \<open>0x5A\<close>.\<close>

definition ready_to_receive :: "'s serial_ops \<Rightarrow> 's rr10 \<Rightarrow> (error + bool) \<times> 's rr10" where
  "ready_to_receive ops self =
     (case serial_read ops 1 self of
        (s, self1) \<Rightarrow>
          if s \<noteq> [0xA5]
          then (case format_hash_x s of
                  Inl e \<Rightarrow> (Inl e, self1)
                | Inr text \<Rightarrow> (Inr False, self1))
          else (case serial_write ops [0x5A] self1 of
                  (k, self2) \<Rightarrow> (Inr (1 = k), self2)))"

text \<open>
  \<open>self.prepare_to_receive\<close>: neither \<open>RR10\<close> nor its base class \<open>NFCSerial\<close> defines an
  attribute of this name (the handshake is called \<open>ready_to_receive\<close>), so the lookup
  raises AttributeError before anything is called.
\<close>

definition prepare_to_receive :: "'s serial_ops \<Rightarrow> 's rr10 \<Rightarrow> (error + bool) \<times> 's rr10" where
  "prepare_to_receive ops self = (Inl AttributeError, self)"

text \<open>
  \<open>receive()\<close>: \<open>None\<close> when the handshake returns False; otherwise one byte \<open>length\<close>,
  then \<open>int(length.hex(), 16)\<close> more bytes, then \<open>Message(length + data)\<close>.
\<close>

definition receive :: "'s serial_ops \<Rightarrow> 's rr10 \<Rightarrow> (error + message option) \<times> 's rr10" where
  "receive ops self =
     (case prepare_to_receive ops self of
        (Inl e, self1) \<Rightarrow> (Inl e, self1)
      | (Inr ok, self1) \<Rightarrow>
          if \<not> ok then (Inr None, self1)
          else (case serial_read ops 1 self1 of
                  (len, self2) \<Rightarrow>
                    (case int_of_hex len of
                       Inl e \<Rightarrow> (Inl e, self2)
                     | Inr n \<Rightarrow>
                        (case serial_read ops (nat n) self2 of
                           (data, self3) \<Rightarrow>
                             (case Message_init (Sequence (len @ data)) [] of
                                Inl e \<Rightarrow> (Inl e, self3)
                              | Inr m \<Rightarrow> (Inr (Some m), self3))))))"

text \<open>
  A serial object for concrete runs: its state is the bytes the reader has still to
  deliver; \<open>read(n)\<close> takes up to \<open>n\<close> of them and \<open>write\<close> reports the whole buffer
  written.
\<close>

definition queue_serial :: "(byte list) serial_ops" where
  "queue_serial =
     \<lparr>ser_read = (\<lambda>n s. (take n s, drop n s)),
      ser_write = (\<lambda>b s. (int (length b), s))\<rparr>"

subsection \<open>Frames: the messages a caller can hold\<close>

text \<open>
  A frame is a message that a constructor call returned, or what a call of a property
  setter or getter left of a frame, whether the call completed or raised.
\<close>

inductive frame :: "message \<Rightarrow> bool" where
  frame_init: "Message_init a params = Inr m \<Longrightarrow> frame m"
| frame_set_command: "frame m \<Longrightarrow> set_command m c = (r, m') \<Longrightarrow> frame m'"
| frame_set_parameters: "frame m \<Longrightarrow> set_parameters m v = (r, m') \<Longrightarrow> frame m'"
| frame_parameters: "frame m \<Longrightarrow> parameters m = (p, m') \<Longrightarrow> frame m'"

text \<open>
  What the specification calls consistent: the two stored checksum bytes are the sum of
  all bytes before them, modulo 65536, low byte first.
\<close>

definition le16 :: "int \<Rightarrow> byte list" where
  "le16 n = [word_of_int (n mod 256), word_of_int (n div 256 mod 256)]"

definition checksum_consistent :: "message \<Rightarrow> bool" where
  "checksum_consistent m =
     (checksum m = le16 (sum_bytes (take (length (buf m) - 2) (buf m)) mod 65536))"

section \<open>Facts about the bytearray operations\<close>


lemma slice_bound_checksum: "slice_bound n d (Some INDEX_CHECKSUM) = n - 2"
  unfolding slice_bound_def INDEX_CHECKSUM_def by (simp add: max_def) arith

lemma slice_bound_parameters: "slice_bound n d (Some INDEX_PARAMETERS) = min n 2"
  by (simp add: slice_bound_def INDEX_PARAMETERS_def)

lemma slice_bound_None: "slice_bound n d None = d"
  by (simp add: slice_bound_def)

lemmas slice_bounds = slice_bound_checksum slice_bound_parameters slice_bound_None

lemma getslice_upto_checksum:
  "getslice xs None (Some INDEX_CHECKSUM) = take (length xs - 2) xs"
  unfolding getslice_def slice_bounds Let_def by simp

lemma getslice_checksum:
  "getslice xs (Some INDEX_CHECKSUM) None = drop (length xs - 2) xs"
  unfolding getslice_def slice_bounds Let_def by simp

lemma getslice_parameters:
  "getslice xs (Some INDEX_PARAMETERS) (Some INDEX_CHECKSUM) = take (length xs - 4) (drop 2 xs)"
proof (cases "2 \<le> length xs")
  case True
  then have "min (length xs) 2 = 2" and "length xs - 2 - 2 = length xs - 4" by simp_all
  then show ?thesis unfolding getslice_def slice_bounds Let_def by simp
next
  case False
  then show ?thesis unfolding getslice_def slice_bounds Let_def by simp
qed

lemma setslice_checksum:
  "setslice xs (Some INDEX_CHECKSUM) None v = take (length xs - 2) xs @ v"
  unfolding setslice_def slice_bounds Let_def by simp

lemma setslice_parameters:
  "setslice xs (Some INDEX_PARAMETERS) (Some INDEX_CHECKSUM) v =
     take 2 xs @ v @ drop (max 2 (length xs - 2)) xs"
proof (cases "2 \<le> length xs")
  case True
  then have "min (length xs) 2 = 2" by simp
  then show ?thesis unfolding setslice_def slice_bounds Let_def by simp
next
  case False
  then have "min (length xs) 2 = length xs" and "max (length xs) (length xs - 2) = length xs"
    by simp_all
  with False show ?thesis unfolding setslice_def slice_bounds Let_def by simp
qed

section \<open>Facts about the checksum\<close>

lemma sum_bytes_nonneg: "0 \<le> sum_bytes xs"
  by (induction xs) (simp_all add: sum_bytes_def)

lemma uint_byte_le: "uint (x :: byte) \<le> 255"
  using uint_bounded [of x] by simp

lemma sum_bytes_le: "sum_bytes xs \<le> 255 * int (length xs)"
proof (induction xs)
  case Nil
  show ?case by (simp add: sum_bytes_def)
next
  case (Cons x xs)
  have "uint x \<le> 255" by (rule uint_byte_le)
  with Cons show ?case by (simp add: sum_bytes_def)
qed

lemma sum_bytes_append: "sum_bytes (xs @ ys) = sum_bytes xs + sum_bytes ys"
  by (simp add: sum_bytes_def)

lemma sum_bytes_small:
  assumes "length xs \<le> 257"
  shows "sum_bytes xs < 65536"
proof -
  have "sum_bytes xs \<le> 255 * int (length xs)" by (rule sum_bytes_le)
  also have "\<dots> \<le> 255 * 257" using assms by simp
  finally show ?thesis by simp
qed

lemma to_bytes_2_little_le16:
  "0 \<le> s \<Longrightarrow> s < 65536 \<Longrightarrow> to_bytes_2_little s = Inr (le16 (s mod 65536))"
  by (simp add: to_bytes_2_little_def le16_def word_eq_iff_unsigned [where ?'a = int]
      uint_word_of_int)

lemma to_bytes_2_little_Inr:
  "to_bytes_2_little s = Inr c \<Longrightarrow> 0 \<le> s \<and> s < 65536 \<and> c = le16 (s mod 65536)"
  using to_bytes_2_little_le16 [of s]
  by (cases "s < 0 \<or> 65536 \<le> s") (auto simp add: to_bytes_2_little_def)

lemma length_le16: "length (le16 s) = 2"
  by (simp add: le16_def)

lemma checksum_eq: "checksum m = drop (length (buf m) - 2) (buf m)"
  by (simp add: checksum_def getslice_checksum)

lemma get_checksum_eq:
  "get_checksum m = to_bytes_2_little (sum_bytes (take (length (buf m) - 2) (buf m)))"
  by (simp add: get_checksum_def getslice_upto_checksum)

lemma get_checksum_ok:
  assumes "length (buf m) \<le> 259"
  shows "get_checksum m = Inr (le16 (sum_bytes (take (length (buf m) - 2) (buf m)) mod 65536))"
proof -
  have "length (take (length (buf m) - 2) (buf m)) \<le> 257" using assms by simp
  then have "sum_bytes (take (length (buf m) - 2) (buf m)) < 65536" by (rule sum_bytes_small)
  then show ?thesis
    by (simp add: get_checksum_eq to_bytes_2_little_le16 sum_bytes_nonneg)
qed

lemma get_checksum_Inr:
  "get_checksum m = Inr c \<Longrightarrow>
     c = le16 (sum_bytes (take (length (buf m) - 2) (buf m)) mod 65536)"
  using to_bytes_2_little_Inr [of "sum_bytes (take (length (buf m) - 2) (buf m))" c]
  unfolding get_checksum_eq by blast

lemma consistent_append:
  "length xs = n - 2 \<Longrightarrow> c = le16 (sum_bytes xs mod 65536) \<Longrightarrow>
     checksum_consistent (m\<lparr>buf := xs @ c\<rparr>)"
  by (simp add: checksum_consistent_def checksum_eq length_le16)

lemma update_checksum_Inr:
  assumes "update_checksum m = (Inr u, m')"
  shows "m' = m\<lparr>buf := take (length (buf m) - 2) (buf m)
                  @ le16 (sum_bytes (take (length (buf m) - 2) (buf m)) mod 65536)\<rparr>"
  using assms get_checksum_Inr [of m]
  by (auto simp add: update_checksum_def setslice_checksum split: sum.splits)

lemma update_checksum_Inl:
  "update_checksum m = (Inl e, m') \<Longrightarrow> m' = m \<and> \<not> length (buf m) \<le> 259"
  using get_checksum_ok [of m]
  by (auto simp add: update_checksum_def split: sum.splits)

lemma update_checksum_consistent:
  assumes "update_checksum m = (Inr u, m')"
  shows "checksum_consistent m'"
proof -
  have "length (take (length (buf m) - 2) (buf m)) = length (buf m) - 2" by simp
  then show ?thesis
    unfolding update_checksum_Inr [OF assms] by (rule consistent_append) simp
qed

lemma update_checksum_length:
  "2 \<le> length (buf m) \<Longrightarrow> length (buf (snd (update_checksum m))) = length (buf m)"
  by (auto simp add: update_checksum_def setslice_checksum get_checksum_eq to_bytes_2_little_def
      split: sum.splits)

section \<open>Facts about the command setter\<close>

lemma in_command_values:
  "c \<in> set command_values \<longleftrightarrow>
     c \<in> {1, 2, 3, 6, 7, 8, 9, 10, 11, 12, 13, 14, 15, 32, 33}"
  by (auto simp add: command_values_def get_commands_def COMMAND_CONNECTION_def
      COMMAND_GET_VERSION_def)

lemma command_values_range: "c \<in> set command_values \<Longrightarrow> 0 \<le> c \<and> c < 256"
  by (auto simp add: in_command_values)

lemma setitem_length: "setitem xs i v = Inr ys \<Longrightarrow> length ys = length xs"
  by (auto simp add: setitem_def Let_def split: if_splits)

lemma set_command_Inl:
  assumes "length (buf m) \<le> 259" and "set_command m c = (Inl e, m')"
  shows "m' = m"
proof (cases "c \<in> set command_values")
  case False
  with assms(2) show ?thesis by (simp add: set_command_def)
next
  case True
  show ?thesis
  proof (cases "setitem (buf m) INDEX_COMMAND c")
    case (Inl e')
    with True assms(2) show ?thesis by (simp add: set_command_def)
  next
    case (Inr b)
    then have len: "length b = length (buf m)" by (rule setitem_length)
    from True Inr assms(2) have "update_checksum (m\<lparr>buf := b\<rparr>) = (Inl e, m')"
      by (simp add: set_command_def)
    then have "\<not> length (buf (m\<lparr>buf := b\<rparr>)) \<le> 259"
      using update_checksum_Inl [of "m\<lparr>buf := b\<rparr>" e m'] by blast
    with len assms(1) show ?thesis by simp
  qed
qed

lemma set_command_consistent:
  assumes "set_command m c = (Inr u, m')"
  shows "checksum_consistent m'"
proof -
  from assms obtain b where "update_checksum (m\<lparr>buf := b\<rparr>) = (Inr u, m')"
    by (auto simp add: set_command_def split: if_splits sum.splits)
  then show ?thesis by (rule update_checksum_consistent)
qed

lemma set_command_length: "length (buf (snd (set_command m c))) = length (buf m)"
proof (cases "c \<in> set command_values")
  case False
  then show ?thesis by (simp add: set_command_def)
next
  case True
  show ?thesis
  proof (cases "setitem (buf m) INDEX_COMMAND c")
    case (Inl e')
    with True show ?thesis by (simp add: set_command_def)
  next
    case (Inr b)
    then have len: "length b = length (buf m)" by (rule setitem_length)
    from Inr have "2 \<le> length (buf m)"
      by (auto simp add: setitem_def INDEX_COMMAND_def Let_def split: if_splits)
    with len have "length (buf (snd (update_checksum (m\<lparr>buf := b\<rparr>)))) = length (buf m)"
      using update_checksum_length [of "m\<lparr>buf := b\<rparr>"] by simp
    with True Inr show ?thesis by (simp add: set_command_def)
  qed
qed

lemma set_command_ok:
  assumes "c \<in> set command_values" and "2 \<le> length (buf m)" and "length (buf m) \<le> 259"
  shows "set_command m c =
     (Inr (), m\<lparr>buf := take (length (buf m) - 2) ((buf m)[1 := word_of_int c])
                  @ le16 (sum_bytes (take (length (buf m) - 2) ((buf m)[1 := word_of_int c]))
                          mod 65536)\<rparr>)"
proof -
  from assms(1) have r: "0 \<le> c" "c < 256" by (simp_all add: command_values_range)
  with assms(2) have s: "setitem (buf m) INDEX_COMMAND c = Inr ((buf m)[1 := word_of_int c])"
    by (simp add: setitem_def INDEX_COMMAND_def)
  have "get_checksum (m\<lparr>buf := (buf m)[1 := word_of_int c]\<rparr>) =
     Inr (le16 (sum_bytes (take (length (buf m) - 2) ((buf m)[1 := word_of_int c])) mod 65536))"
    using get_checksum_ok [of "m\<lparr>buf := (buf m)[1 := word_of_int c]\<rparr>"] assms(3) by simp
  then show ?thesis
    using assms(1) s by (simp add: set_command_def update_checksum_def setslice_checksum)
qed

section \<open>Facts about the parameters setter\<close>

lemma update_checksum_ok:
  assumes "length (buf m) \<le> 259"
  shows "update_checksum m =
     (Inr (), m\<lparr>buf := take (length (buf m) - 2) (buf m)
                  @ le16 (sum_bytes (take (length (buf m) - 2) (buf m)) mod 65536)\<rparr>)"
  by (simp add: update_checksum_def get_checksum_ok [OF assms] setslice_checksum)

lemma frame_shape:
  assumes "length b = n + 4"
  obtains a x y z where "take 2 b = [a, x]" and "drop (n + 2) b = [y, z]" and "x = b ! 1"
proof -
  from assms obtain a x r where b: "b = a # x # r" and r: "length r = n + 2"
    by (cases b; cases "tl b") auto
  from r have "length (drop n r) = Suc (Suc 0)" by simp
  then obtain y z where "drop n r = [y, z]"
    by (metis length_0_conv length_Suc_conv)
  with b have "take 2 b = [a, x]" "drop (n + 2) b = [y, z]" "x = b ! 1" by simp_all
  then show thesis by (rule that)
qed

lemma uint_length_byte:
  "n \<le> 255 \<Longrightarrow> uint (of_nat n :: byte) = int n"
  by (simp add: uint_nat unat_of_nat)

lemma other_bytearray_Some:
  assumes "other_bytearray val = Some v"
  shows "is_bytearray val" and "value_bytes s val = v" and "val \<noteq> Itself"
  using assms by (cases val; simp)+

lemma other_bytearray_None:
  "other_bytearray val = None \<Longrightarrow> val = Itself \<or> val = NotBytearray"
  by (cases val) simp_all

lemma set_parameters_ok:
  assumes c: "other_bytearray val = Some v"
    and v: "length v \<le> 251"
    and m: "length (buf m) \<le> length v + 4"
  shows "\<exists>x. set_parameters m val =
      (Inr (), m\<lparr>buf := of_nat (length v + 4) # x # v
                       @ le16 ((int (length v + 4) + uint x + sum_bytes v) mod 65536),
                 parameters_attr :=
                   (if is_ParametersArray val then parameters_attr m else Some v)\<rparr>)
    \<and> (2 \<le> length (buf m) \<longrightarrow> x = buf m ! 1)"
proof -
  define b1 where "b1 = buf m @ replicate (length v + 4 - length (buf m)) 0"
  have len1: "length b1 = length v + 4" using m by (simp add: b1_def)
  have "nat (int (length v + 4) - int (length (buf m))) = length v + 4 - length (buf m)"
    by simp
  with m have step1:
    "(if length v + MIN_LENGTH \<noteq> length (buf m)
      then (case bytearray_count (int (length v + MIN_LENGTH) - int (length (buf m))) of
              Inl e \<Rightarrow> Inl e
            | Inr z \<Rightarrow> Inr (m\<lparr>buf := buf m @ z\<rparr>))
      else Inr m) = Inr (m\<lparr>buf := b1\<rparr>)"
    by (simp add: MIN_LENGTH_def bytearray_count_def b1_def del: of_nat_add)
  from len1 obtain a x y z
    where t: "take 2 b1 = [a, x]" and d: "drop (length v + 2) b1 = [y, z]" and x: "x = b1 ! 1"
    by (rule frame_shape)
  have mx: "max 2 (length b1 - 2) = length v + 2" by (simp add: len1)
  have step2: "setslice b1 (Some INDEX_PARAMETERS) (Some INDEX_CHECKSUM) v = a # x # v @ [y, z]"
    unfolding setslice_parameters mx t d by simp
  define L :: byte where "L = of_nat (length v + 4)"
  have uL: "uint L = int (length v + 4)"
    unfolding L_def using v by (intro uint_length_byte) simp
  have step3: "setitem (a # x # v @ [y, z]) INDEX_LENGTH (int (length (a # x # v @ [y, z])))
      = Inr (L # x # v @ [y, z])"
    using v by (simp add: setitem_def INDEX_LENGTH_def L_def)
  have tk: "take (length (L # x # v @ [y, z]) - 2) (L # x # v @ [y, z]) = L # x # v"
    by simp
  have "length (buf (m\<lparr>buf := L # x # v @ [y, z]\<rparr>)) \<le> 259" using v by simp
  then have step4: "update_checksum (m\<lparr>buf := L # x # v @ [y, z]\<rparr>) =
      (Inr (), m\<lparr>buf := L # x # v @ le16 (sum_bytes (L # x # v) mod 65536)\<rparr>)"
    using tk by (simp add: update_checksum_ok del: length_append)
  have sm: "sum_bytes (L # x # v) = int (length v + 4) + uint x + sum_bytes v"
    by (simp add: sum_bytes_def uL)
  have step5: "update_length (m\<lparr>buf := a # x # v @ [y, z]\<rparr>) =
      (Inr (), m\<lparr>buf := L # x # v
                     @ le16 ((int (length v + 4) + uint x + sum_bytes v) mod 65536)\<rparr>)"
    using step3 step4 by (simp add: update_length_def sm del: length_append)
  have res: "set_parameters m val =
      (Inr (), m\<lparr>buf := L # x # v
                       @ le16 ((int (length v + 4) + uint x + sum_bytes v) mod 65536),
                 parameters_attr :=
                   (if is_ParametersArray val then parameters_attr m else Some v)\<rparr>)"
    unfolding set_parameters_def other_bytearray_Some(2) [OF c] step1
    using v other_bytearray_Some(1) [OF c] by (simp add: MAX_PARAMETERS_def step2 step5)
  have "2 \<le> length (buf m) \<longrightarrow> x = buf m ! 1"
    by (simp add: x b1_def nth_append)
  with res show ?thesis unfolding L_def by blast
qed

lemma set_parameters_shrink:
  assumes "other_bytearray val = Some v" and "length v + 4 < length (buf m)"
    and "length v \<le> 251"
  shows "set_parameters m val = (Inl ValueError, m)"
  using assms other_bytearray_Some(1,2) [OF assms(1)]
  by (simp add: set_parameters_def MAX_PARAMETERS_def MIN_LENGTH_def bytearray_count_def)

lemma set_parameters_Inl:
  assumes "set_parameters m val = (Inl e, m')" and "val \<noteq> Itself"
  shows "m' = m"
proof (cases "other_bytearray val")
  case None
  with assms(2) have "val = NotBytearray" using other_bytearray_None by blast
  with assms(1) show ?thesis by (simp add: set_parameters_def)
next
  case (Some v)
  note ob = other_bytearray_Some(1,2) [OF Some]
  show ?thesis
  proof (cases "length v \<le> 251")
    case False
    with ob assms(1) show ?thesis by (simp add: set_parameters_def MAX_PARAMETERS_def)
  next
    case True
    show ?thesis
    proof (cases "length v + 4 < length (buf m)")
      case True
      with Some \<open>length v \<le> 251\<close> assms(1) show ?thesis by (simp add: set_parameters_shrink)
    next
      case False
      then have "length (buf m) \<le> length v + 4" by simp
      from set_parameters_ok [OF Some True this] assms(1) show ?thesis by auto
    qed
  qed
qed

lemma set_parameters_Inr:
  assumes "set_parameters m val = (Inr u, m')" and "other_bytearray val = Some v"
  shows "\<exists>x. length v \<le> 251
      \<and> length (buf m) \<le> length v + 4
      \<and> buf m' = of_nat (length v + 4) # x # v
                   @ le16 ((int (length v + 4) + uint x + sum_bytes v) mod 65536)"
proof -
  note ob = other_bytearray_Some(1,2) [OF assms(2)]
  show ?thesis
  proof (cases "length v \<le> 251")
    case False
    with ob assms(1) show ?thesis by (simp add: set_parameters_def MAX_PARAMETERS_def)
  next
    case True
    show ?thesis
    proof (cases "length v + 4 < length (buf m)")
      case True
      with assms \<open>length v \<le> 251\<close> show ?thesis by (simp add: set_parameters_shrink)
    next
      case False
      then have le: "length (buf m) \<le> length v + 4" by simp
      from set_parameters_ok [OF assms(2) True le] assms(1) obtain x where
        b: "buf m' = of_nat (length v + 4) # x # v
                   @ le16 ((int (length v + 4) + uint x + sum_bytes v) mod 65536)"
        by auto
      with True le show ?thesis by blast
    qed
  qed
qed

text \<open>
  Whatever the value, a setter call that completes ends with \<open>_update_length\<close>, and so
  with \<open>_update_checksum\<close>.
\<close>

lemma update_length_consistent:
  assumes "update_length m = (Inr u, m')"
  shows "checksum_consistent m'"
proof (cases "setitem (buf m) INDEX_LENGTH (int (length (buf m)))")
  case (Inl e)
  with assms show ?thesis by (simp add: update_length_def)
next
  case (Inr b)
  with assms have "update_checksum (m\<lparr>buf := b\<rparr>) = (Inr u, m')"
    by (simp add: update_length_def)
  then show ?thesis by (rule update_checksum_consistent)
qed

lemma set_parameters_ends_with_update_length:
  assumes "set_parameters m val = (Inr u, m')"
  shows "\<exists>s2 s3. update_length s2 = (Inr (), s3) \<and> buf m' = buf s3"
proof -
  define E where "E =
    (if length (value_bytes m val) + MIN_LENGTH \<noteq> length (buf m)
     then (case bytearray_count
                  (int (length (value_bytes m val) + MIN_LENGTH) - int (length (buf m))) of
             Inl e \<Rightarrow> Inl e
           | Inr z \<Rightarrow> Inr (m\<lparr>buf := buf m @ z\<rparr>))
     else Inr m)"
  have ib: "is_bytearray val"
    using assms by (cases "is_bytearray val") (simp_all add: set_parameters_def)
  have le: "\<not> length (value_bytes m val) > MAX_PARAMETERS"
    using assms ib
    by (cases "length (value_bytes m val) > MAX_PARAMETERS") (simp_all add: set_parameters_def)
  obtain s1 where s1: "E = Inr s1"
    using assms ib le by (cases E) (simp_all add: set_parameters_def E_def [symmetric])
  define s2 where "s2 = s1\<lparr>buf := setslice (buf s1) (Some INDEX_PARAMETERS)
      (Some INDEX_CHECKSUM) (value_bytes s1 val)\<rparr>"
  obtain r s3 where r: "update_length s2 = (r, s3)" by (cases "update_length s2")
  have unf: "set_parameters m val =
      (case update_length s2 of
         (Inl e, s3) \<Rightarrow> (Inl e, s3)
       | (Inr u, s3) \<Rightarrow>
           (Inr (), if is_ParametersArray val then s3
                    else s3\<lparr>parameters_attr := Some (value_bytes s3 val)\<rparr>))"
    using ib le s1 by (simp add: set_parameters_def E_def [symmetric] s2_def Let_def)
  from assms unf r have "r = Inr () \<and> buf m' = buf s3"
    by (cases r) (auto split: if_splits)
  with r show ?thesis by blast
qed

section \<open>Facts about the constructor\<close>

declare Message_init.simps [simp del]

lemma set_parameters_consistent:
  assumes "set_parameters m val = (Inr u, m')"
  shows "checksum_consistent m'"
proof -
  from set_parameters_ends_with_update_length [OF assms] obtain s2 s3
    where "update_length s2 = (Inr (), s3)" and b: "buf m' = buf s3"
    by blast
  then have "checksum_consistent s3" using update_length_consistent by blast
  with b show ?thesis by (simp add: checksum_consistent_def checksum_eq)
qed

lemma set_parameters_length:
  assumes "set_parameters m val = (Inr u, m')" and "other_bytearray val = Some v"
  shows "length (buf m') = length v + 4" and "length v \<le> 251"
    and "take (length (buf m') - 4) (drop 2 (buf m')) = v"
    and "uint (buf m' ! 0) = int (length (buf m'))"
proof -
  from set_parameters_Inr [OF assms] obtain x where
    b: "buf m' = of_nat (length v + 4) # x # v
                   @ le16 ((int (length v + 4) + uint x + sum_bytes v) mod 65536)"
    and v: "length v \<le> 251"
    by auto
  show "length (buf m') = length v + 4" by (simp add: b length_le16)
  show "length v \<le> 251" by (rule v)
  show "take (length (buf m') - 4) (drop 2 (buf m')) = v" by (simp add: b length_le16)
  show "uint (buf m' ! 0) = int (length (buf m'))"
    using v by (simp add: b length_le16 uint_length_byte del: of_nat_add)
qed

lemma from_bytes_empty: "Message_init (Sequence []) ps = Inl IndexError"
  by (simp add: Message_init.simps msg_length_def getitem_def INDEX_LENGTH_def MAX_LENGTH_def)

lemma from_bytes_nonempty:
  assumes "raw \<noteq> []"
  shows "Message_init (Sequence raw) ps =
     (if 255 < length raw then Inl MessageTooLong
      else if int (length raw) \<noteq> uint (hd raw) then Inl (IncorrectLength (length raw))
      else if le16 (sum_bytes (take (length raw - 2) raw) mod 65536) \<noteq> drop (length raw - 2) raw
        then Inl (IncorrectChecksum (le16 (sum_bytes (take (length raw - 2) raw) mod 65536)))
      else Inr \<lparr>buf = raw, parameters_attr = None\<rparr>)"
proof (cases "255 < length raw")
  case True
  then show ?thesis by (simp add: Message_init.simps MAX_LENGTH_def)
next
  case False
  then have "length (buf \<lparr>buf = raw, parameters_attr = None\<rparr>) \<le> 259" by simp
  then have g: "get_checksum \<lparr>buf = raw, parameters_attr = None\<rparr> =
      Inr (le16 (sum_bytes (take (length raw - 2) raw) mod 65536))"
    using get_checksum_ok [of "\<lparr>buf = raw, parameters_attr = None\<rparr>"] by simp
  have l: "msg_length \<lparr>buf = raw, parameters_attr = None\<rparr> = Inr (uint (hd raw))"
    using assms by (simp add: msg_length_def getitem_def INDEX_LENGTH_def hd_conv_nth)
  from False show ?thesis
    by (simp add: Message_init.simps MAX_LENGTH_def g l checksum_eq Let_def)
qed

lemma from_bytes_Inr:
  assumes "Message_init (Sequence raw) ps = Inr m"
  shows "m = \<lparr>buf = raw, parameters_attr = None\<rparr>" and "length raw \<le> 255"
    and "int (length raw) = uint (hd raw)" and "checksum_consistent m"
proof -
  have ne: "raw \<noteq> []"
  proof
    assume "raw = []"
    with assms from_bytes_empty [of ps] show False by simp
  qed
  from assms show m: "m = \<lparr>buf = raw, parameters_attr = None\<rparr>"
    unfolding from_bytes_nonempty [OF ne] by (simp split: if_splits)
  from assms show "length raw \<le> 255"
    unfolding from_bytes_nonempty [OF ne] by (simp split: if_splits)
  from assms show "int (length raw) = uint (hd raw)"
    unfolding from_bytes_nonempty [OF ne] by (simp split: if_splits)
  from assms have "le16 (sum_bytes (take (length raw - 2) raw) mod 65536)
      = drop (length raw - 2) raw"
    unfolding from_bytes_nonempty [OF ne] by (simp split: if_splits)
  then show "checksum_consistent m"
    by (simp add: m checksum_consistent_def checksum_eq)
qed

lemma new_Inr:
  assumes "Message_init (Command c) ps = Inr m"
  shows "\<exists>z s1 v. set_command \<lparr>buf = z, parameters_attr = None\<rparr> c = (Inr (), s1)
      \<and> bytearray_ints ps = Inr v \<and> set_parameters s1 (Bytearray v) = (Inr (), m)"
proof -
  obtain z where z: "bytearray_count (int (MIN_LENGTH + length ps)) = Inr z"
    using assms
    by (cases "bytearray_count (int (MIN_LENGTH + length ps))")
      (simp_all add: Message_init.simps)
  obtain r1 s1 where s1: "set_command \<lparr>buf = z, parameters_attr = None\<rparr> c = (r1, s1)"
    by (cases "set_command \<lparr>buf = z, parameters_attr = None\<rparr> c")
  from assms z s1 have r1: "r1 = Inr ()" by (cases r1) (simp_all add: Message_init.simps)
  obtain v where v: "bytearray_ints ps = Inr v"
    using assms z s1 r1 by (cases "bytearray_ints ps") (simp_all add: Message_init.simps)
  obtain r2 s2 where s2: "set_parameters s1 (Bytearray v) = (r2, s2)"
    by (cases "set_parameters s1 (Bytearray v)")
  from assms z s1 r1 v s2 have "r2 = Inr () \<and> s2 = m"
    by (cases r2) (simp_all add: Message_init.simps)
  with s1 r1 v s2 show ?thesis by blast
qed

lemma init_consistent:
  assumes "Message_init a ps = Inr m"
  shows "checksum_consistent m"
proof (cases a)
  case (Sequence raw)
  with assms have "Message_init (Sequence raw) ps = Inr m" by simp
  then show ?thesis by (rule from_bytes_Inr(4))
next
  case (Command c)
  with assms obtain s1 v where "set_parameters s1 (Bytearray v) = (Inr (), m)"
    using new_Inr by blast
  then show ?thesis by (rule set_parameters_consistent)
next
  case Neither
  with assms show ?thesis by (simp add: Message_init.simps)
qed

lemma init_length:
  assumes "Message_init a ps = Inr m"
  shows "length (buf m) \<le> 255"
proof (cases a)
  case (Sequence raw)
  with assms have i: "Message_init (Sequence raw) ps = Inr m" by simp
  from from_bytes_Inr(1) [OF i] from_bytes_Inr(2) [OF i] show ?thesis by simp
next
  case (Command c)
  with assms obtain s1 v where "set_parameters s1 (Bytearray v) = (Inr (), m)"
    using new_Inr by blast
  from set_parameters_length(1,2) [OF this, of v] show ?thesis by simp
next
  case Neither
  with assms show ?thesis by (simp add: Message_init.simps)
qed

section \<open>Facts about the integer branch of the constructor\<close>

lemma uint_command: "c \<in> set command_values \<Longrightarrow> uint (word_of_int c :: byte) = c"
  using command_values_range [of c] by (simp add: uint_word_of_int)

lemma map_uint_bytes:
  "list_all (\<lambda>p. 0 \<le> p \<and> p < 256) ps \<Longrightarrow> map uint (map word_of_int ps :: byte list) = ps"
  by (induction ps) (simp_all add: uint_word_of_int)

lemma new_ok:
  assumes c: "c \<in> set command_values" and n: "length ps \<le> 251"
    and b: "list_all (\<lambda>p. 0 \<le> p \<and> p < 256) ps"
  shows "Message_init (Command c) ps =
     Inr \<lparr>buf = of_nat (length ps + 4) # word_of_int c # map word_of_int ps
                 @ le16 ((int (length ps + 4) + c + sum_list ps) mod 65536),
          parameters_attr = Some (map word_of_int ps)\<rparr>"
proof -
  define m0 :: message where "m0 = \<lparr>buf = replicate (length ps + 4) 0, parameters_attr = None\<rparr>"
  define v :: "byte list" where "v = map word_of_int ps"
  define B1 where "B1 = take (length (buf m0) - 2) ((buf m0)[1 := word_of_int c])
      @ le16 (sum_bytes (take (length (buf m0) - 2) ((buf m0)[1 := word_of_int c])) mod 65536)"
  have z: "bytearray_count (int (MIN_LENGTH + length ps)) = Inr (replicate (length ps + 4) 0)"
    by (simp add: bytearray_count_def MIN_LENGTH_def add.commute)
  have l0: "length (buf m0) = length ps + 4" by (simp add: m0_def)
  have sc: "set_command m0 c = (Inr (), m0\<lparr>buf := B1\<rparr>)"
    unfolding B1_def using c n by (intro set_command_ok) (simp_all add: l0)
  have l1: "length B1 = length ps + 4" by (simp add: B1_def l0 length_le16)
  have x1: "B1 ! Suc 0 = word_of_int c" by (simp add: B1_def l0 nth_append)
  have bi: "bytearray_ints ps = Inr v" using b by (simp add: bytearray_ints_def v_def)
  have lv: "length v = length ps" by (simp add: v_def)
  have "\<exists>x. set_parameters (m0\<lparr>buf := B1\<rparr>) (Bytearray v) =
      (Inr (), m0\<lparr>buf := B1\<rparr>\<lparr>buf := of_nat (length v + 4) # x # v
                       @ le16 ((int (length v + 4) + uint x + sum_bytes v) mod 65536),
                 parameters_attr :=
                   (if is_ParametersArray (Bytearray v) then parameters_attr (m0\<lparr>buf := B1\<rparr>)
                    else Some v)\<rparr>)
    \<and> (2 \<le> length (buf (m0\<lparr>buf := B1\<rparr>)) \<longrightarrow> x = buf (m0\<lparr>buf := B1\<rparr>) ! 1)"
    using n by (intro set_parameters_ok) (simp_all add: lv l1)
  then have sp: "set_parameters (m0\<lparr>buf := B1\<rparr>) (Bytearray v) =
      (Inr (), m0\<lparr>buf := of_nat (length ps + 4) # word_of_int c # v
                       @ le16 ((int (length ps + 4) + uint (word_of_int c :: byte) + sum_bytes v)
                               mod 65536),
                 parameters_attr := Some v\<rparr>)"
    by (auto simp add: lv l1 x1)
  have sv: "sum_bytes v = sum_list ps"
    using map_uint_bytes [OF b] by (simp add: sum_bytes_def v_def)
  show ?thesis
    unfolding Message_init.simps z
    using sc sp by (simp add: m0_def [symmetric] bi uint_command [OF c] sv) (simp add: m0_def v_def)
qed

lemma parameters_fresh:
  "parameters_attr m = None \<Longrightarrow>
     fst (parameters m) = take (length (buf m) - 4) (drop 2 (buf m))"
  by (simp add: parameters_def getslice_parameters Let_def)

lemma writes_append: "writes (xs @ ys) = writes xs @ writes ys"
  by (induction xs rule: writes.induct) simp_all

section \<open>The claims\<close>

subsection \<open>C1: the checksum after every completed call\<close>

text \<open>
  C1. After every completed construction or mutation call the stored checksum is the sum
  of all bytes before it, modulo 65536, low byte first. The constructor covers both
  \<open>new(command, parameters)\<close> (first argument \<open>Command c\<close>) and \<open>from_bytes(raw)\<close>
  (first argument \<open>Sequence raw\<close>); the two setters are taken on any message \<open>m\<close>, so in
  particular on every frame.
\<close>

theorem checksum_consistent_after_call:
  "(Message_init a ps = Inr m1 \<longrightarrow>
      checksum m1 = le16 (sum_bytes (take (length (buf m1) - 2) (buf m1)) mod 65536)) \<and>
   (set_command m c = (Inr u, m2) \<longrightarrow>
      checksum m2 = le16 (sum_bytes (take (length (buf m2) - 2) (buf m2)) mod 65536)) \<and>
   (set_parameters m v = (Inr u', m3) \<longrightarrow>
      checksum m3 = le16 (sum_bytes (take (length (buf m3) - 2) (buf m3)) mod 65536))"
  using init_consistent [of a ps m1] set_command_consistent [of m c u m2]
    set_parameters_consistent [of m v u' m3]
  unfolding checksum_consistent_def by blast

theorem checksum_consistent_after_call_witness:
  "Message_init (Sequence [0x04, 0x03, 0x07, 0x00]) []
      = Inr \<lparr>buf = [0x04, 0x03, 0x07, 0x00], parameters_attr = None\<rparr> \<and>
   set_command \<lparr>buf = [0x04, 0x03, 0x07, 0x00], parameters_attr = None\<rparr> 0x01
      = (Inr (), \<lparr>buf = [0x04, 0x01, 0x05, 0x00], parameters_attr = None\<rparr>) \<and>
   set_parameters \<lparr>buf = [0x04, 0x03, 0x07, 0x00], parameters_attr = None\<rparr>
        (Bytearray [0xFF, 0xFF])
      = (Inr (), \<lparr>buf = [0x06, 0x03, 0xFF, 0xFF, 0x07, 0x02],
                   parameters_attr = Some [0xFF, 0xFF]\<rparr>) \<and>
   checksum \<lparr>buf = [0x04, 0x03, 0x07, 0x00], parameters_attr = None\<rparr> = le16 0x07 \<and>
   checksum \<lparr>buf = [0x04, 0x01, 0x05, 0x00], parameters_attr = None\<rparr> = le16 0x05 \<and>
   checksum \<lparr>buf = [0x06, 0x03, 0xFF, 0xFF, 0x07, 0x02],
             parameters_attr = Some [0xFF, 0xFF]\<rparr> = le16 0x0207"
proof -
  have a: "Message_init (Sequence [0x04, 0x03, 0x07, 0x00]) []
      = Inr \<lparr>buf = [0x04, 0x03, 0x07, 0x00], parameters_attr = None\<rparr>"
    by code_simp
  have b: "set_command \<lparr>buf = [0x04, 0x03, 0x07, 0x00], parameters_attr = None\<rparr> 0x01
      = (Inr (), \<lparr>buf = [0x04, 0x01, 0x05, 0x00], parameters_attr = None\<rparr>)"
    by code_simp
  have c: "set_parameters \<lparr>buf = [0x04, 0x03, 0x07, 0x00], parameters_attr = None\<rparr>
        (Bytearray [0xFF, 0xFF])
      = (Inr (), \<lparr>buf = [0x06, 0x03, 0xFF, 0xFF, 0x07, 0x02],
                   parameters_attr = Some [0xFF, 0xFF]\<rparr>)"
    by code_simp
  from a b c
    checksum_consistent_after_call [of "Sequence [0x04, 0x03, 0x07, 0x00]" "[]"
      "\<lparr>buf = [0x04, 0x03, 0x07, 0x00], parameters_attr = None\<rparr>"
      "\<lparr>buf = [0x04, 0x03, 0x07, 0x00], parameters_attr = None\<rparr>" "0x01" "()"
      "\<lparr>buf = [0x04, 0x01, 0x05, 0x00], parameters_attr = None\<rparr>"
      "Bytearray [0xFF, 0xFF]" "()"
      "\<lparr>buf = [0x06, 0x03, 0xFF, 0xFF, 0x07, 0x02], parameters_attr = Some [0xFF, 0xFF]\<rparr>"]
  show ?thesis by (simp add: sum_bytes_def)
qed

subsection \<open>C2: building, serialising and parsing again\<close>

text \<open>
  C2. For every command \<open>c\<close> of the command table and every sequence \<open>ps\<close> of at most
  \<open>MAX_PARAMETERS\<close> = 251 parameter bytes (integers in \<open>range(256)\<close>), \<open>Message(c, *ps)\<close>
  returns a message \<open>m\<close>, \<open>Message(bytes(m))\<close> returns a message \<open>m'\<close>, and the command
  and the parameters of \<open>m'\<close> are \<open>c\<close> and \<open>ps\<close>, as those of \<open>m\<close> are.
\<close>

theorem new_from_bytes_roundtrip:
  assumes c: "c \<in> set command_values" and n: "length ps \<le> MAX_PARAMETERS"
    and b: "list_all (\<lambda>p. 0 \<le> p \<and> p < 256) ps"
  shows "\<exists>m m'. Message_init (Command c) ps = Inr m
      \<and> Message_init (Sequence (buf m)) [] = Inr m'
      \<and> command m' = Inr c \<and> map uint (fst (parameters m')) = ps
      \<and> command m = Inr c \<and> map uint (fst (parameters m)) = ps"
proof -
  define v :: "byte list" where "v = map word_of_int ps"
  define S where "S = (int (length ps + 4) + c + sum_list ps) mod 65536"
  define B :: "byte list" where "B = of_nat (length ps + 4) # word_of_int c # v @ le16 S"
  define m where "m = \<lparr>buf = B, parameters_attr = Some v\<rparr>"
  define m' where "m' = \<lparr>buf = B, parameters_attr = None\<rparr>"
  from n have n': "length ps \<le> 251" by (simp add: MAX_PARAMETERS_def)
  have lv: "length v = length ps" by (simp add: v_def)
  have uv: "map uint v = ps" unfolding v_def using b by (rule map_uint_bytes)
  have lB: "length B = length ps + 4" by (simp add: B_def lv length_le16)
  have new: "Message_init (Command c) ps = Inr m"
    unfolding m_def B_def S_def v_def using c n' b by (rule new_ok)
  have tk: "take (length B - 2) B = of_nat (length ps + 4) # word_of_int c # v"
    by (simp add: B_def lv length_le16)
  have dr: "drop (length B - 2) B = le16 S"
    by (simp add: B_def lv length_le16)
  have "sum_bytes (of_nat (length ps + 4) # word_of_int c # v)
      = int (length ps + 4) + c + sum_list ps"
    using n' by (simp add: sum_bytes_def uv uint_command [OF c] uint_length_byte del: of_nat_add)
  then have sm: "le16 (sum_bytes (take (length B - 2) B) mod 65536) = drop (length B - 2) B"
    by (simp add: tk dr S_def)
  have "hd B = of_nat (length ps + 4)" by (simp add: B_def)
  then have hd: "uint (hd B) = int (length B)"
    using n' by (simp add: lB uint_length_byte del: of_nat_add)
  have ne: "B \<noteq> []" by (simp add: B_def)
  have parse: "Message_init (Sequence B) [] = Inr m'"
    unfolding from_bytes_nonempty [OF ne] m'_def using sm hd n' by (simp add: lB)
  have cmd: "getitem B INDEX_COMMAND = Inr c"
    by (simp add: getitem_def INDEX_COMMAND_def lB) (simp add: B_def uint_command [OF c])
  have sl: "take (length B - 4) (drop 2 B) = v"
    by (simp add: B_def lv length_le16)
  have p': "fst (parameters m') = v"
    by (simp add: parameters_fresh m'_def sl)
  have p: "fst (parameters m) = v"
    by (simp add: parameters_def m_def getslice_parameters sl Let_def)
  have "Message_init (Command c) ps = Inr m
      \<and> Message_init (Sequence (buf m)) [] = Inr m'
      \<and> command m' = Inr c \<and> map uint (fst (parameters m')) = ps
      \<and> command m = Inr c \<and> map uint (fst (parameters m)) = ps"
    using new parse cmd by (simp add: p p' uv command_def) (simp add: m_def m'_def)
  then show ?thesis by blast
qed

theorem new_from_bytes_roundtrip_witness:
  "0x01 \<in> set command_values \<and> length [0x05, 0x0A :: int] \<le> MAX_PARAMETERS \<and>
   list_all (\<lambda>p. 0 \<le> p \<and> p < 256) [0x05, 0x0A :: int] \<and>
   (\<exists>m m'. Message_init (Command 0x01) [0x05, 0x0A] = Inr m
      \<and> Message_init (Sequence (buf m)) [] = Inr m'
      \<and> command m' = Inr 0x01 \<and> map uint (fst (parameters m')) = [0x05, 0x0A]
      \<and> command m = Inr 0x01 \<and> map uint (fst (parameters m)) = [0x05, 0x0A])"
proof -
  have h: "0x01 \<in> set command_values" "length [0x05, 0x0A :: int] \<le> MAX_PARAMETERS"
    "list_all (\<lambda>p. 0 \<le> p \<and> p < 256) [0x05, 0x0A :: int]"
    by (simp_all add: in_command_values MAX_PARAMETERS_def)
  from h new_from_bytes_roundtrip [OF h] show ?thesis by blast
qed

subsection \<open>C3: receive\<close>

text \<open>
  The handshake that C3 describes is \<open>ready_to_receive\<close>, and it behaves as described:
  a first byte \<open>0xA5\<close> is answered by writing \<open>0x5A\<close>, and the result is whether the
  write reported one byte; any other first byte raises before anything is written.
\<close>

lemma ready_to_receive_cases:
  assumes r: "ser_read ops 1 (serial self) = (s, s1)"
    and w: "ser_write ops [0x5A] s1 = (k, s2)"
  shows "(s = [0xA5] \<longrightarrow>
            ready_to_receive ops self
              = (Inr (k = 1), self\<lparr>serial := s2,
                                   calls := calls self @ [Read 1 s, Write [0x5A] k]\<rparr>))
       \<and> (s \<noteq> [0xA5] \<longrightarrow>
            ready_to_receive ops self
              = (Inl TypeError, self\<lparr>serial := s1, calls := calls self @ [Read 1 s]\<rparr>))"
  using r w
  by (auto simp add: ready_to_receive_def serial_read_def serial_write_def format_hash_x_def)

text \<open>
  \<open>receive\<close> does not call it. It calls \<open>prepare_to_receive\<close>, a name no class of the
  module defines, so it raises AttributeError on every serial object, with nothing read
  and nothing written.
\<close>

lemma receive_raises: "receive ops self = (Inl AttributeError, self)"
  by (simp add: receive_def prepare_to_receive_def)

text \<open>
  C3 fails on the code: the reader offers \<open>0xA5\<close> and then the frame \<open>04 03 07 00\<close>, and
  the write of \<open>0x5A\<close> would report one byte; \<open>receive()\<close> raises AttributeError and
  the serial object has seen no call.
\<close>

theorem receive_raises_AttributeError:
  "receive queue_serial \<lparr>serial = [0xA5, 0x04, 0x03, 0x07, 0x00], calls = []\<rparr>
     = (Inl AttributeError, \<lparr>serial = [0xA5, 0x04, 0x03, 0x07, 0x00], calls = []\<rparr>)"
  by (simp add: receive_def prepare_to_receive_def)

subsection \<open>C4: the bytes of the version request\<close>

text \<open>
  C4 says that \<open>version()\<close> is the bytes \<open>04 03 04 00\<close>. The checksum is the sum of the
  bytes before it, the length byte included, so it is \<open>04 + 03 = 07\<close>; the message is
  \<open>04 03 07 00\<close>.
\<close>

theorem version_bytes_counterexample:
  "map_sum id buf version \<noteq> Inr [0x04, 0x03, 0x04, 0x00]"
  by code_simp

text \<open>C4 as amended: \<open>version()\<close> is the bytes \<open>04 03 07 00\<close>.\<close>

theorem version_bytes:
  "map_sum id buf version = Inr [0x04, 0x03, 0x07, 0x00]"
  by code_simp

subsection \<open>C5: the parameters setter and the size of the frame\<close>

text \<open>
  A payload that is not shorter than the one in place (the buffer has at most
  \<open>len(value) + MIN_LENGTH\<close> bytes) is accepted: the frame then has
  \<open>len(value) + MIN_LENGTH\<close> bytes, its first byte is that count, and its parameters are
  the payload.
\<close>

lemma set_parameters_grows:
  assumes "other_bytearray val = Some v" and "length v \<le> 251"
    and "length (buf m) \<le> length v + 4"
  shows "fst (set_parameters m val) = Inr ()"
    and "length (buf (snd (set_parameters m val))) = length v + 4"
    and "msg_length (snd (set_parameters m val)) = Inr (int (length v + 4))"
    and "take (length (buf (snd (set_parameters m val))) - 4)
           (drop 2 (buf (snd (set_parameters m val)))) = v"
proof -
  from set_parameters_ok [OF assms] obtain m' where r: "set_parameters m val = (Inr (), m')"
    by blast
  show "fst (set_parameters m val) = Inr ()" by (simp add: r)
  from set_parameters_length [OF r assms(1)]
  show "length (buf (snd (set_parameters m val))) = length v + 4"
    and "take (length (buf (snd (set_parameters m val))) - 4)
           (drop 2 (buf (snd (set_parameters m val)))) = v"
    and "msg_length (snd (set_parameters m val)) = Inr (int (length v + 4))"
    by (simp_all add: r msg_length_def getitem_def INDEX_LENGTH_def
        del: of_nat_add)
qed

text \<open>
  C5 fails on the code for a shorter payload. The frame \<open>test()\<close> is \<open>06 01 05 0A 16 00\<close>,
  with two parameter bytes; assigning the one-byte payload \<open>05\<close> evaluates
  \<open>bytearray(5 - 6)\<close>, which raises ValueError, and the frame keeps its six bytes.
\<close>

theorem set_parameters_shorter_payload_raises:
  "test = Inr \<lparr>buf = [0x06, 0x01, 0x05, 0x0A, 0x16, 0x00],
               parameters_attr = Some [0x05, 0x0A]\<rparr> \<and>
   set_parameters
       \<lparr>buf = [0x06, 0x01, 0x05, 0x0A, 0x16, 0x00], parameters_attr = Some [0x05, 0x0A]\<rparr>
       (Bytearray [0x05])
     = (Inl ValueError,
        \<lparr>buf = [0x06, 0x01, 0x05, 0x0A, 0x16, 0x00], parameters_attr = Some [0x05, 0x0A]\<rparr>)"
  by code_simp

subsection \<open>C6: the errors of the bytes branch\<close>

text \<open>
  On a sequence that is not empty the bytes branch of the constructor classifies as C6
  says (lemma \<open>from_bytes_nonempty\<close>): too long, else length byte against byte count,
  else recomputed against stored checksum, each with its own message.

  C6 fails on the code for the empty sequence: it has no more than 255 bytes, the
  recomputed checksum \<open>00 00\<close> is not the stored one (there is none), and the
  constructor raises neither of the three errors but the IndexError of \<open>self[0]\<close>.
\<close>

theorem from_bytes_empty_raises_IndexError:
  "Message_init (Sequence []) [] = Inl IndexError"
  by (rule from_bytes_empty)

subsection \<open>C7: the request-to-send handshake\<close>

text \<open>
  \<open>send\<close> writes \<open>0x55\<close> and reads one byte. When the byte read is \<open>0xAA\<close>, the
  handshake returns True and \<open>send\<close> writes the bytes of the message and returns the
  count of that write, as C7 says. For any other reply nothing more is written, but the
  handshake does not return: formatting the diagnostic line raises TypeError, and the
  TypeError leaves \<open>send\<close> too. The three hypotheses only name what the serial object
  answers.
\<close>

lemma send_cases:
  assumes w: "ser_write ops [0x55] (serial self) = (k, s1)"
    and r: "ser_read ops 1 s1 = (reply, s2)"
    and f: "ser_write ops (buf msg) s2 = (n, s3)"
  shows "(reply = [0xAA] \<longrightarrow>
            prepare_to_send ops self
              = (Inr True, self\<lparr>serial := s2,
                                calls := calls self @ [Write [0x55] k, Read 1 reply]\<rparr>)
          \<and> send ops self msg
              = (Inr n, self\<lparr>serial := s3,
                             calls := calls self
                               @ [Write [0x55] k, Read 1 reply, Write (buf msg) n]\<rparr>))
       \<and> (reply \<noteq> [0xAA] \<longrightarrow>
            prepare_to_send ops self
              = (Inl TypeError, self\<lparr>serial := s2,
                                     calls := calls self @ [Write [0x55] k, Read 1 reply]\<rparr>)
          \<and> send ops self msg
              = (Inl TypeError, self\<lparr>serial := s2,
                                     calls := calls self @ [Write [0x55] k, Read 1 reply]\<rparr>)
          \<and> writes (calls (snd (send ops self msg))) = writes (calls self) @ [[0x55]])"
proof -
  have p: "prepare_to_send ops self =
      (if reply \<noteq> [0xAA] then Inl TypeError else Inr True,
       self\<lparr>serial := s2, calls := calls self @ [Write [0x55] k, Read 1 reply]\<rparr>)"
    using w r by (simp add: prepare_to_send_def serial_write_def serial_read_def format_hash_x_def)
  show ?thesis
  proof (cases "reply = [0xAA]")
    case True
    with p f show ?thesis by (simp add: send_def serial_write_def)
  next
    case False
    with p show ?thesis by (simp add: send_def writes_append)
  qed
qed

text \<open>
  So \<open>return False\<close> in \<open>prepare_to_send\<close> and \<open>return 0\<close> in \<open>send\<close>, the refusal
  the code was written to give, are never reached.
\<close>

lemma prepare_to_send_never_False: "fst (prepare_to_send ops self) \<noteq> Inr False"
  by (simp add: prepare_to_send_def format_hash_x_def split: prod.splits)

text \<open>
  C7 fails on the code for a reply other than \<open>0xAA\<close>: the reader answers \<open>0x55\<close> with
  \<open>0xA5\<close>; the handshake does not report the mismatch and \<open>send\<close> does not refuse with
  0, both raise TypeError. The message \<open>04 03 07 00\<close> is not written.
\<close>

theorem send_wrong_reply_raises_TypeError:
  "prepare_to_send queue_serial \<lparr>serial = [0xA5], calls = []\<rparr>
     = (Inl TypeError, \<lparr>serial = [], calls = [Write [0x55] 1, Read 1 [0xA5]]\<rparr>) \<and>
   send queue_serial \<lparr>serial = [0xA5], calls = []\<rparr>
       \<lparr>buf = [0x04, 0x03, 0x07, 0x00], parameters_attr = None\<rparr>
     = (Inl TypeError, \<lparr>serial = [], calls = [Write [0x55] 1, Read 1 [0xA5]]\<rparr>)"
  by (simp add: send_def prepare_to_send_def serial_write_def serial_read_def format_hash_x_def
      queue_serial_def)

subsection \<open>C8: the size of a constructed frame\<close>

text \<open>
  The integer branch of the constructor keeps the bounds of C8: between \<open>MIN_LENGTH\<close>
  and \<open>MAX_LENGTH\<close> bytes, at most \<open>MAX_PARAMETERS\<close> of them parameters. The bytes branch
  keeps the upper bound.
\<close>

lemma new_bounds:
  assumes "Message_init (Command c) ps = Inr m"
  shows "MIN_LENGTH \<le> length (buf m)" and "length (buf m) \<le> MAX_LENGTH"
    and "msg_length m = Inr (int (length (buf m)))"
    and "length (getslice (buf m) (Some INDEX_PARAMETERS) (Some INDEX_CHECKSUM))
           \<le> MAX_PARAMETERS"
proof -
  from new_Inr [OF assms] obtain s1 v where r: "set_parameters s1 (Bytearray v) = (Inr (), m)"
    by blast
  have c: "other_bytearray (Bytearray v) = Some v" by simp
  from set_parameters_length [OF r c]
  show "MIN_LENGTH \<le> length (buf m)" and "length (buf m) \<le> MAX_LENGTH"
    and "msg_length m = Inr (int (length (buf m)))"
    and "length (getslice (buf m) (Some INDEX_PARAMETERS) (Some INDEX_CHECKSUM))
           \<le> MAX_PARAMETERS"
    by (simp_all add: MIN_LENGTH_def MAX_LENGTH_def MAX_PARAMETERS_def getslice_parameters
        msg_length_def getitem_def INDEX_LENGTH_def del: of_nat_add)
qed

lemma from_bytes_bounds:
  assumes "Message_init (Sequence raw) ps = Inr m"
  shows "length (buf m) \<le> MAX_LENGTH"
    and "length (getslice (buf m) (Some INDEX_PARAMETERS) (Some INDEX_CHECKSUM))
           \<le> MAX_PARAMETERS"
  using from_bytes_Inr(1) [OF assms] from_bytes_Inr(2) [OF assms]
  by (simp_all add: MAX_LENGTH_def MAX_PARAMETERS_def getslice_parameters)

text \<open>
  C8 fails on the code for the bytes branch, which never compares the byte count with
  \<open>MIN_LENGTH\<close>: the three bytes \<open>03 03 00\<close> carry their own count and the checksum
  \<open>03 00\<close> of the one byte before it, and the constructor returns them as a message.
\<close>

theorem from_bytes_accepts_three_bytes:
  "Message_init (Sequence [0x03, 0x03, 0x00]) []
     = Inr \<lparr>buf = [0x03, 0x03, 0x00], parameters_attr = None\<rparr> \<and>
   length (buf \<lparr>buf = [0x03, 0x03, 0x00], parameters_attr = None\<rparr>) < MIN_LENGTH"
  by code_simp

subsection \<open>C9: the checksum never overflows\<close>

text \<open>
  C9. For a buffer of at most \<open>MAX_LENGTH\<close> = 255 bytes, the sum that \<open>get_checksum\<close>
  encodes is at most 65535, so \<open>to_bytes(2, 'little')\<close> does not raise OverflowError: the
  result is the sum modulo 65536, low byte first, and \<open>_update_checksum\<close> completes.
\<close>

theorem get_checksum_no_overflow:
  assumes "length (buf m) \<le> MAX_LENGTH"
  shows "sum_bytes (getslice (buf m) None (Some INDEX_CHECKSUM)) \<le> 65535 \<and>
    get_checksum m
      = Inr (le16 (sum_bytes (getslice (buf m) None (Some INDEX_CHECKSUM)) mod 65536)) \<and>
    fst (update_checksum m) = Inr ()"
proof -
  from assms have l: "length (buf m) \<le> 259" by (simp add: MAX_LENGTH_def)
  then have "length (take (length (buf m) - 2) (buf m)) \<le> 257" by simp
  then have "sum_bytes (take (length (buf m) - 2) (buf m)) < 65536" by (rule sum_bytes_small)
  with l show ?thesis
    by (simp add: getslice_upto_checksum get_checksum_ok update_checksum_ok)
qed

theorem get_checksum_no_overflow_witness:
  "length (buf \<lparr>buf = replicate 253 0xFF @ [0x03, 0xFC], parameters_attr = None\<rparr>)
      \<le> MAX_LENGTH \<and>
   get_checksum \<lparr>buf = replicate 253 0xFF @ [0x03, 0xFC], parameters_attr = None\<rparr>
      = Inr [0x03, 0xFC]"
proof -
  have s: "sum_bytes (replicate 253 0xFF) = 64515" by code_simp
  have t: "getslice (replicate 253 0xFF @ [0x03, 0xFC :: byte]) None (Some INDEX_CHECKSUM)
      = replicate 253 0xFF"
    by (simp add: getslice_upto_checksum)
  have w: "le16 64515 = [0x03, 0xFC]" by (simp add: le16_def)
  from get_checksum_no_overflow
    [of "\<lparr>buf = replicate 253 0xFF @ [0x03, 0xFC], parameters_attr = None\<rparr>"]
  show ?thesis by (simp add: MAX_LENGTH_def s t w)
qed

subsection \<open>C10: a setter that raises\<close>

text \<open>
  On a message of at most 259 bytes, so on every message a constructor returns, a command
  setter that raises leaves the message as it was, and so does a parameters setter that
  raises, unless the value assigned is the message itself.
\<close>

lemma failed_setter_keeps_message:
  "length (buf m) \<le> 259 \<Longrightarrow> set_command m c = (Inl e, m') \<Longrightarrow> m' = m"
  "v \<noteq> Itself \<Longrightarrow> set_parameters m v = (Inl e', m'') \<Longrightarrow> m'' = m"
  using set_command_Inl [of m c e m'] set_parameters_Inl [of m v e' m''] by blast+

text \<open>
  C10 fails on the code when a frame of 248 to 251 bytes is assigned to its own
  parameters. \<open>Message(0x01, *([0] * 244))\<close> is a frame \<open>m\<close> of 248 bytes. In
  \<open>m.parameters = m\<close> the value is a bytearray of 248 bytes, which passes both tests;
  the buffer is extended by 4 bytes, the slice assignment puts a copy of these 252 bytes
  between the first two and the last two, and \<open>self[0] = 256\<close> raises ValueError. The
  setter has raised and the frame has 256 bytes, with the length byte and the checksum of
  the old one.
\<close>

theorem set_parameters_itself_raises_after_writing:
  "Message_init (Command 0x01) (replicate 244 0)
     = Inr \<lparr>buf = 0xF8 # 0x01 # replicate 244 0 @ [0xF9, 0x00],
            parameters_attr = Some (replicate 244 0)\<rparr> \<and>
   frame \<lparr>buf = 0xF8 # 0x01 # replicate 244 0 @ [0xF9, 0x00],
          parameters_attr = Some (replicate 244 0)\<rparr> \<and>
   set_parameters
       \<lparr>buf = 0xF8 # 0x01 # replicate 244 0 @ [0xF9, 0x00],
        parameters_attr = Some (replicate 244 0)\<rparr> Itself
     = (Inl ValueError,
        \<lparr>buf = 0xF8 # 0x01 # (0xF8 # 0x01 # replicate 244 0 @ [0xF9, 0x00]) @ replicate 6 0,
         parameters_attr = Some (replicate 244 0)\<rparr>)"
proof -
  have i: "Message_init (Command 0x01) (replicate 244 0)
     = Inr \<lparr>buf = 0xF8 # 0x01 # replicate 244 0 @ [0xF9, 0x00],
            parameters_attr = Some (replicate 244 0)\<rparr>"
    by code_simp
  have s: "set_parameters
       \<lparr>buf = 0xF8 # 0x01 # replicate 244 0 @ [0xF9, 0x00],
        parameters_attr = Some (replicate 244 0)\<rparr> Itself
     = (Inl ValueError,
        \<lparr>buf = 0xF8 # 0x01 # (0xF8 # 0x01 # replicate 244 0 @ [0xF9, 0x00]) @ replicate 6 0,
         parameters_attr = Some (replicate 244 0)\<rparr>)"
    by code_simp
  from i s frame_init [OF i] show ?thesis by blast
qed

end
